theory Spec2Isabelle
  imports Complex_Main "HOL-Library.Word"
begin

unbundle bit_operations_syntax

section \<open>The SCD4x driver (7Semi\_SCD4x.cpp)\<close>

type_synonym u8 = "8 word"
type_synonym u16 = "16 word"
type_synonym u32 = "32 word"
type_synonym u64 = "64 word"

subsection \<open>CRC-8\<close>

text \<open>
  One round of the loop body in \<^verbatim>\<open>crc8\<close>:
  \<^verbatim>\<open>crc = (crc & 0x80) ? (uint8_t)((crc << 1) ^ 0x31) : (uint8_t)(crc << 1)\<close>.
  The shift happens on a promoted \<^verbatim>\<open>int\<close> and the cast keeps the low eight bits,
  which is the shift of an 8-bit word.
\<close>

definition crc_step :: "u8 \<Rightarrow> u8" where
  "crc_step crc = (if crc AND 0x80 \<noteq> 0 then push_bit 1 crc XOR 0x31 else push_bit 1 crc)"

text \<open>\<^verbatim>\<open>for (int i = 0; i < 8; ++i) crc = ...\<close>, entered with the counter \<open>i\<close>.\<close>

function crc_for :: "int \<Rightarrow> u8 \<Rightarrow> u8" where
  "crc_for i crc = (if i < 8 then crc_for (i + 1) (crc_step crc) else crc)"
  by pat_completeness auto
termination
  by (relation "measure (\<lambda>(i, crc). nat (8 - i))") auto

declare crc_for.simps [simp del]

definition crc8 :: "u8 \<Rightarrow> u8 \<Rightarrow> u8" where
  "crc8 b0 b1 =
     (let crc = 0xFF;
          crc = crc XOR b0;
          crc = crc_for 0 crc;
          crc = crc XOR b1;
          crc = crc_for 0 crc
      in crc)"

text \<open>
  The checksum as the specification words it: seed \<open>0xFF\<close>; for each of the two input
  bytes, XOR the byte into the running checksum, then eight times: shift left, and XOR
  with \<open>0x31\<close> when the high bit was set.
\<close>

definition shift_xor :: "u8 \<Rightarrow> u8" where
  "shift_xor c = (if bit c 7 then push_bit 1 c XOR 0x31 else push_bit 1 c)"

definition crc8_spec :: "u8 \<Rightarrow> u8 \<Rightarrow> u8" where
  "crc8_spec b0 b1 = fold (\<lambda>b c. (shift_xor ^^ 8) (c XOR b)) [b0, b1] 0xFF"

subsection \<open>The transport and the clock\<close>

text \<open>
  The driver talks to an Arduino \<^verbatim>\<open>TwoWire\<close> bus and to the Arduino clock
  (\<^verbatim>\<open>millis\<close>, \<^verbatim>\<open>delay\<close>); neither is code of this repository. The state of that
  outside world is the history of the calls made so far, each with the value it returned,
  and a board answers every call as a function of that history. The clock is ideal: it
  advances across \<^verbatim>\<open>delay(n)\<close>, by \<open>n\<close> milliseconds, and \<^verbatim>\<open>millis()\<close> is the time since
  boot as a 32-bit counter.
\<close>

datatype event =
    BeginTransmission u8
  | Write u8
  | EndTransmission u8
  | RequestFrom u8 u8
  | Available int
  | Read int
  | Millis u32
  | Delay nat

record arduino =
  endTransmission_status :: "event list \<Rightarrow> u8"
  available_count :: "event list \<Rightarrow> int"
  read_value :: "event list \<Rightarrow> int"
  boot_ms :: nat

fun elapsed :: "event list \<Rightarrow> nat" where
  "elapsed [] = 0"
| "elapsed (Delay n # es) = n + elapsed es"
| "elapsed (e # es) = elapsed es"

definition i2c_beginTransmission :: "u8 \<Rightarrow> event list \<Rightarrow> event list" where
  "i2c_beginTransmission a tr = tr @ [BeginTransmission a]"

definition i2c_write :: "u8 \<Rightarrow> event list \<Rightarrow> event list" where
  "i2c_write b tr = tr @ [Write b]"

definition i2c_endTransmission :: "arduino \<Rightarrow> event list \<Rightarrow> u8 \<times> event list" where
  "i2c_endTransmission E tr = (let r = endTransmission_status E tr in (r, tr @ [EndTransmission r]))"

definition i2c_requestFrom :: "u8 \<Rightarrow> u8 \<Rightarrow> event list \<Rightarrow> event list" where
  "i2c_requestFrom a n tr = tr @ [RequestFrom a n]"

definition i2c_available :: "arduino \<Rightarrow> event list \<Rightarrow> int \<times> event list" where
  "i2c_available E tr = (let a = available_count E tr in (a, tr @ [Available a]))"

definition i2c_read :: "arduino \<Rightarrow> event list \<Rightarrow> int \<times> event list" where
  "i2c_read E tr = (let v = read_value E tr in (v, tr @ [Read v]))"

definition millis :: "arduino \<Rightarrow> event list \<Rightarrow> u32 \<times> event list" where
  "millis E tr = (let m = of_nat (boot_ms E + elapsed tr) in (m, tr @ [Millis m]))"

definition delay :: "nat \<Rightarrow> event list \<Rightarrow> event list" where
  "delay n tr = tr @ [Delay n]"

subsection \<open>The driver object and the command catalogue\<close>

text \<open>
  The class keeps the bus pointer and the device address. The opcodes are constants of
  the header \<^verbatim>\<open>7Semi_SCD4x.h\<close>, which is not among the sources: the functions take
  them as a parameter.
\<close>

record SCD4x_7Semi =
  address :: u8

record opcodes =
  READ_MEASUREMENT_RAW_CMD_ID :: u16
  SET_TEMPERATURE_OFFSET_RAW_CMD_ID :: u16
  GET_TEMPERATURE_OFFSET_RAW_CMD_ID :: u16
  PERFORM_FORCED_RECALIBRATION_CMD_ID :: u16
  GET_SERIAL_NUMBER_CMD_ID :: u16
  PERFORM_SELF_TEST_CMD_ID :: u16

subsection \<open>Low-level helpers\<close>

text \<open>The payload loop of \<^verbatim>\<open>txCommand\<close>, over \<^verbatim>\<open>words[0 .. nwords - 1]\<close>.\<close>

fun tx_words :: "u16 list \<Rightarrow> event list \<Rightarrow> event list" where
  "tx_words [] tr = tr"
| "tx_words (w # ws) tr =
     (let b0 = (ucast (drop_bit 8 w) :: u8);
          b1 = (ucast (w AND 0xFF) :: u8);
          c = crc8 b0 b1;
          tr = i2c_write b0 tr;
          tr = i2c_write b1 tr;
          tr = i2c_write c tr
      in tx_words ws tr)"

text \<open>
  \<^verbatim>\<open>txCommand(cmd, words, nwords)\<close>: the array \<^verbatim>\<open>words\<close> with its length
  \<^verbatim>\<open>nwords\<close> is a list; \<^verbatim>\<open>nullptr\<close> with length 0 is the empty list.
\<close>

definition txCommand :: "arduino \<Rightarrow> SCD4x_7Semi \<Rightarrow> u16 \<Rightarrow> u16 list \<Rightarrow> event list \<Rightarrow> bool \<times> event list" where
  "txCommand E this cmd words tr =
     (let tr = i2c_beginTransmission (address this) tr;
          tr = i2c_write (ucast (drop_bit 8 cmd)) tr;
          tr = i2c_write (ucast (cmd AND 0xFF)) tr;
          tr = tx_words words tr;
          (st, tr) = i2c_endTransmission E tr
      in (st = 0, tr))"

definition sendCommand :: "arduino \<Rightarrow> SCD4x_7Semi \<Rightarrow> u16 \<Rightarrow> event list \<Rightarrow> bool \<times> event list" where
  "sendCommand E this cmd tr = txCommand E this cmd [] tr"

definition writeCommand :: "arduino \<Rightarrow> SCD4x_7Semi \<Rightarrow> u16 \<Rightarrow> u16 list \<Rightarrow> event list \<Rightarrow> bool \<times> event list" where
  "writeCommand E this cmd words tr = txCommand E this cmd words tr"

text \<open>
  \<^verbatim>\<open>checkCrc(p, word)\<close>: \<open>p\<close> is the memory from the pointer on, \<open>word\<close> the reference
  parameter, returned with the result. Every caller passes a pointer with at least three
  bytes behind it; with fewer the C function reads out of bounds, and the model fails.
\<close>

fun checkCrc :: "u8 list \<Rightarrow> u16 \<Rightarrow> bool \<times> u16" where
  "checkCrc (b0 # b1 # c # rest) word =
     (if crc8 b0 b1 \<noteq> c then (False, word)
      else (True, push_bit 8 (ucast b0) OR ucast b1))"
| "checkCrc p word = (False, word)"

text \<open>
  The bounded wait of \<^verbatim>\<open>readNData\<close>:
  \<^verbatim>\<open>while (i2c->available() < (int)nbytes) { if (millis() - t0 > 100) return false; delay(1); }\<close>.
  The result is \<open>False\<close> where the source returns from inside the loop.
\<close>

function poll_available :: "arduino \<Rightarrow> nat \<Rightarrow> u32 \<Rightarrow> event list \<Rightarrow> bool \<times> event list" where
  "poll_available E nbytes t0 tr =
     (let (a, tr1) = i2c_available E tr in
      if a < int nbytes then
        (let (m, tr2) = millis E tr1 in
         if m - t0 > 100 then (False, tr2)
         else poll_available E nbytes t0 (delay 1 tr2))
      else (True, tr1))"
  by pat_completeness auto

termination
proof (relation "measure (\<lambda>(E, nbytes, t0, tr). 101 - unat ((of_nat (boot_ms E + elapsed tr) :: u32) - t0))", goal_cases)
  case 1
  show ?case by simp
next
  case (2 E nbytes t0 tr x a tr1 y m tr2)
  have app: "elapsed (xs @ ys) = elapsed xs + elapsed ys" for xs ys
    by (induction xs rule: elapsed.induct) auto
  define W :: u32 where "W = of_nat (boot_ms E + elapsed tr) - t0"
  from 2 have m: "m = of_nat (boot_ms E + elapsed tr)" and tr2: "elapsed tr2 = elapsed tr"
    by (auto simp: i2c_available_def millis_def Let_def app)
  from 2 m have small: "\<not> 100 < W" by (simp add: W_def)
  then have le: "unat W \<le> 100" by (simp add: word_less_nat_alt not_less)
  then have "unat W + unat (1 :: u32) < 2 ^ LENGTH(32)" by simp
  then have "unat (W + 1) = unat W + unat (1 :: u32)" by (simp only: unat_add_lem [THEN iffD1])
  then have suc: "unat (W + 1) = unat W + 1" by simp
  have "elapsed (delay 1 tr2) = elapsed tr + 1"
    by (simp add: delay_def app tr2)
  moreover have "(of_nat (boot_ms E + (elapsed tr + 1)) :: u32) - t0 = W + 1"
    by (simp add: W_def)
  moreover have "101 - unat (W + 1) < 101 - unat W"
    using le suc by simp
  ultimately show ?case by (simp only: in_measure prod.case W_def)
qed

declare poll_available.simps [simp del]

text \<open>
  The word loop of \<^verbatim>\<open>readNData\<close>, entered with the counter \<open>i\<close>. The buffer
  \<^verbatim>\<open>out\<close> is the memory behind the pointer, one cell per index. \<^verbatim>\<open>read()\<close> returns an
  \<^verbatim>\<open>int\<close>, which the assignment to \<^verbatim>\<open>uint8_t\<close> cuts to its low eight bits.
\<close>

function read_words :: "arduino \<Rightarrow> nat \<Rightarrow> nat \<Rightarrow> (nat \<Rightarrow> u16) \<Rightarrow> event list \<Rightarrow> bool \<times> (nat \<Rightarrow> u16) \<times> event list" where
  "read_words E i nwords out tr =
     (if i < nwords then
        (let (v0, tr) = i2c_read E tr; b0 = (of_int v0 :: u8);
             (v1, tr) = i2c_read E tr; b1 = (of_int v1 :: u8);
             (v2, tr) = i2c_read E tr; crc = (of_int v2 :: u8) in
         if crc8 b0 b1 \<noteq> crc then (False, out, tr)
         else read_words E (i + 1) nwords (out(i := push_bit 8 (ucast b0) OR ucast b1)) tr)
      else (True, out, tr))"
  by pat_completeness auto
termination
  by (relation "measure (\<lambda>(E, i, nwords, out, tr). nwords - i)") auto

declare read_words.simps [simp del]

text \<open>
  \<^verbatim>\<open>readNData(cmd, out, nwords)\<close>. The byte count \<^verbatim>\<open>nwords * 3\<close> is a natural number
  here: the model follows the source for every word count whose byte count fits an
  \<^verbatim>\<open>int\<close> of the board (at least 15 bits). The request passes it as \<^verbatim>\<open>uint8_t\<close>.
\<close>

definition readNData :: "arduino \<Rightarrow> SCD4x_7Semi \<Rightarrow> u16 \<Rightarrow> (nat \<Rightarrow> u16) \<Rightarrow> nat \<Rightarrow> event list \<Rightarrow> bool \<times> (nat \<Rightarrow> u16) \<times> event list" where
  "readNData E this cmd out nwords tr =
     (let (ok, tr) = sendCommand E this cmd tr in
      if \<not> ok then (False, out, tr)
      else
        (let tr = delay 1 tr;
             nbytes = nwords * 3;
             tr = i2c_requestFrom (address this) (of_nat nbytes) tr;
             (t0, tr) = millis E tr;
             (ready, tr) = poll_available E nbytes t0 tr in
         if \<not> ready then (False, out, tr)
         else read_words E 0 nwords out tr))"

text \<open>\<^verbatim>\<open>for (size_t i = 0; i < 9; ++i) raw[i] = i2c->read();\<close> for a count \<open>n\<close>.\<close>

fun read_bytes :: "arduino \<Rightarrow> nat \<Rightarrow> event list \<Rightarrow> u8 list \<times> event list" where
  "read_bytes E 0 tr = ([], tr)"
| "read_bytes E (Suc n) tr =
     (let (v, tr) = i2c_read E tr;
          (bs, tr) = read_bytes E n tr
      in ((of_int v :: u8) # bs, tr))"

subsection \<open>Single-precision arithmetic\<close>

text \<open>
  \<^verbatim>\<open>float\<close> is IEEE-754 binary32 on the Arduino cores. A \<^verbatim>\<open>float\<close> is the rational
  number it denotes, and every operation rounds the exact result to the nearest number
  with a 24-bit significand, ties to even. \<open>binade x\<close> is the exponent \<open>e\<close> with
  \<open>2\<^sup>e \<le> x < 2\<^sup>e\<^sup>+\<^sup>1\<close>, found by halving or doubling \<open>x\<close>, and kept within the normal
  range \<open>-126 .. 127\<close> (below it the spacing stays \<open>2\<^sup>-\<^sup>1\<^sup>4\<^sup>9\<close>, as for subnormals).
  Overflow to infinity is not modelled: no value of the driver comes near \<open>2\<^sup>1\<^sup>2\<^sup>8\<close>.
\<close>

definition pow2 :: "int \<Rightarrow> rat" where
  "pow2 e = (if 0 \<le> e then 2 ^ nat e else 1 / 2 ^ nat (- e))"

fun binade_up :: "nat \<Rightarrow> rat \<Rightarrow> int" where
  "binade_up 0 x = 0"
| "binade_up (Suc n) x = (if 2 \<le> x then binade_up n (x / 2) + 1 else 0)"

fun binade_down :: "nat \<Rightarrow> rat \<Rightarrow> int" where
  "binade_down 0 x = 0"
| "binade_down (Suc n) x = (if x < 1 then binade_down n (2 * x) - 1 else 0)"

definition binade :: "rat \<Rightarrow> int" where
  "binade x = (if 1 \<le> x then binade_up 127 x else binade_down 126 x)"

definition ulp :: "rat \<Rightarrow> rat" where
  "ulp x = pow2 (binade \<bar>x\<bar> - 23)"

definition round_even :: "rat \<Rightarrow> int" where
  "round_even q =
     (let f = \<lfloor>q\<rfloor>; r = q - of_int f in
      if r < 1 / 2 then f else if 1 / 2 < r then f + 1 else if even f then f else f + 1)"

definition fl :: "rat \<Rightarrow> rat" where
  "fl x = (if x = 0 then 0 else of_int (round_even (x / ulp x)) * ulp x)"

definition fadd :: "rat \<Rightarrow> rat \<Rightarrow> rat" where
  "fadd a b = fl (a + b)"

definition fmul :: "rat \<Rightarrow> rat \<Rightarrow> rat" where
  "fmul a b = fl (a * b)"

definition fdiv :: "rat \<Rightarrow> rat \<Rightarrow> rat" where
  "fdiv a b = fl (a / b)"

text \<open>\<^verbatim>\<open>(float)w\<close> for a 16-bit \<open>w\<close>: exact, sixteen bits fit the significand.\<close>

definition u16_to_float :: "u16 \<Rightarrow> rat" where
  "u16_to_float w = of_int (uint w)"

text \<open>
  \<^verbatim>\<open>(uint16_t)x\<close> for a \<^verbatim>\<open>float\<close>: the value is truncated towards zero; when the
  truncated value is not a \<^verbatim>\<open>uint16_t\<close> the conversion is undefined in C++, which is
  \<open>None\<close> here.
\<close>

definition float_to_u16 :: "rat \<Rightarrow> u16 option" where
  "float_to_u16 x =
     (let t = (if 0 \<le> x then \<lfloor>x\<rfloor> else \<lceil>x\<rceil>) in
      if 0 \<le> t \<and> t \<le> 65535 then Some (of_int t) else None)"

subsection \<open>Measurement, configuration and identity\<close>

text \<open>
  \<^verbatim>\<open>readMeasurement(co2_ppm, temp_c, rh_percent)\<close>: the three reference parameters come
  in as a triple and go out with the result. The locals \<^verbatim>\<open>co2_raw\<close>, \<^verbatim>\<open>t_raw\<close>,
  \<^verbatim>\<open>rh_raw\<close> are uninitialised in the source and never read before \<^verbatim>\<open>checkCrc\<close> has
  stored to them; they start at 0 here.
\<close>

definition readMeasurement :: "arduino \<Rightarrow> SCD4x_7Semi \<Rightarrow> opcodes \<Rightarrow> u16 \<times> rat \<times> rat \<Rightarrow> event list \<Rightarrow> bool \<times> (u16 \<times> rat \<times> rat) \<times> event list" where
  "readMeasurement E this ids outs tr =
     (let (ok, tr) = sendCommand E this (READ_MEASUREMENT_RAW_CMD_ID ids) tr in
      if \<not> ok then (False, outs, tr)
      else
        (let tr = delay 5 tr;
             tr = i2c_requestFrom (address this) 9 tr;
             (a, tr) = i2c_available E tr in
         if a < 9 then (False, outs, tr)
         else
           (let (raw, tr) = read_bytes E 9 tr;
                (ok0, co2_raw) = checkCrc (drop 0 raw) 0 in
            if \<not> ok0 then (False, outs, tr)
            else
              (let (ok1, t_raw) = checkCrc (drop 3 raw) 0 in
               if \<not> ok1 then (False, outs, tr)
               else
                 (let (ok2, rh_raw) = checkCrc (drop 6 raw) 0 in
                  if \<not> ok2 then (False, outs, tr)
                  else
                    (let co2_ppm = co2_raw;
                         temp_c = fadd (- 45) (fdiv (fmul 175 (u16_to_float t_raw)) 65535);
                         rh_percent = fdiv (fmul 100 (u16_to_float rh_raw)) 65535
                     in (True, (co2_ppm, temp_c, rh_percent), tr)))))))"

text \<open>
  The conversion in \<^verbatim>\<open>setTemperatureOffset\<close>,
  \<^verbatim>\<open>uint16_t raw = (uint16_t)((degC / 175.0f) * 65535.0f)\<close>, and the one in
  \<^verbatim>\<open>getTemperatureOffset\<close>, \<^verbatim>\<open>degC = 175.0f * (float)raw / 65535.0f\<close>.
\<close>

definition offset_raw :: "rat \<Rightarrow> u16 option" where
  "offset_raw degC = float_to_u16 (fmul (fdiv degC 175) 65535)"

definition offset_degC :: "u16 \<Rightarrow> rat" where
  "offset_degC raw = fdiv (fmul 175 (u16_to_float raw)) 65535"

text \<open>\<open>None\<close> is the undefined conversion; nothing is sent in the model then.\<close>

definition setTemperatureOffset :: "arduino \<Rightarrow> SCD4x_7Semi \<Rightarrow> opcodes \<Rightarrow> rat \<Rightarrow> event list \<Rightarrow> (bool \<times> event list) option" where
  "setTemperatureOffset E this ids degC tr =
     (case offset_raw degC of
        None \<Rightarrow> None
      | Some raw \<Rightarrow> Some (writeCommand E this (SET_TEMPERATURE_OFFSET_RAW_CMD_ID ids) [raw] tr))"

text \<open>The local \<^verbatim>\<open>raw\<close> is uninitialised in the source; \<^verbatim>\<open>&raw\<close> is a one-cell buffer.\<close>

definition getTemperatureOffset :: "arduino \<Rightarrow> SCD4x_7Semi \<Rightarrow> opcodes \<Rightarrow> rat \<Rightarrow> event list \<Rightarrow> bool \<times> rat \<times> event list" where
  "getTemperatureOffset E this ids degC tr =
     (let (ok, out, tr) = readNData E this (GET_TEMPERATURE_OFFSET_RAW_CMD_ID ids) (\<lambda>i. 0) 1 tr in
      if \<not> ok then (False, degC, tr)
      else (True, offset_degC (out 0), tr))"

text \<open>
  \<^verbatim>\<open>performForcedRecalibration(reference_ppm, frc_result)\<close>: the optional pointer is
  \<open>None\<close> for \<^verbatim>\<open>nullptr\<close> and \<open>Some v\<close> for a cell that holds \<open>v\<close>.
\<close>

definition performForcedRecalibration :: "arduino \<Rightarrow> SCD4x_7Semi \<Rightarrow> opcodes \<Rightarrow> u16 \<Rightarrow> u16 option \<Rightarrow> event list \<Rightarrow> bool \<times> u16 option \<times> event list" where
  "performForcedRecalibration E this ids reference_ppm frc_result tr =
     (let (ok, tr) = writeCommand E this (PERFORM_FORCED_RECALIBRATION_CMD_ID ids) [reference_ppm] tr in
      if \<not> ok then (False, frc_result, tr)
      else
        (case frc_result of
           None \<Rightarrow> (True, None, tr)
         | Some v \<Rightarrow>
             (let tr = delay 500 tr;
                  (ok, out, tr) = readNData E this (PERFORM_FORCED_RECALIBRATION_CMD_ID ids) (\<lambda>i. v) 1 tr in
              if \<not> ok then (False, Some (out 0), tr)
              else (True, Some (out 0), tr))))"

definition readSerialNumber :: "arduino \<Rightarrow> SCD4x_7Semi \<Rightarrow> opcodes \<Rightarrow> u64 \<Rightarrow> event list \<Rightarrow> bool \<times> u64 \<times> event list" where
  "readSerialNumber E this ids sn tr =
     (let (ok, tr) = sendCommand E this (GET_SERIAL_NUMBER_CMD_ID ids) tr in
      if \<not> ok then (False, sn, tr)
      else
        (let tr = delay 5 tr;
             tr = i2c_requestFrom (address this) 9 tr;
             (a, tr) = i2c_available E tr in
         if a < 9 then (False, sn, tr)
         else
           (let (raw, tr) = read_bytes E 9 tr;
                (ok0, w0) = checkCrc (drop 0 raw) 0 in
            if \<not> ok0 then (False, sn, tr)
            else
              (let (ok1, w1) = checkCrc (drop 3 raw) 0 in
               if \<not> ok1 then (False, sn, tr)
               else
                 (let (ok2, w2) = checkCrc (drop 6 raw) 0 in
                  if \<not> ok2 then (False, sn, tr)
                  else
                    (True,
                     push_bit 32 (ucast w0 :: u64) OR push_bit 16 (ucast w1 :: u64) OR (ucast w2 :: u64),
                     tr))))))"

definition performSelfTest :: "arduino \<Rightarrow> SCD4x_7Semi \<Rightarrow> opcodes \<Rightarrow> u16 \<Rightarrow> event list \<Rightarrow> bool \<times> u16 \<times> event list" where
  "performSelfTest E this ids status_word tr =
     (let (ok, out, tr) = readNData E this (PERFORM_SELF_TEST_CMD_ID ids) (\<lambda>i. status_word) 1 tr
      in (ok, out 0, tr))"

subsection \<open>Notions of the specification\<close>

text \<open>A word on the wire: MSB, LSB, and the CRC-8 of the two.\<close>

definition msb :: "u16 \<Rightarrow> u8" where
  "msb w = ucast (drop_bit 8 w)"

definition lsb :: "u16 \<Rightarrow> u8" where
  "lsb w = ucast w"

definition wire_word :: "u16 \<Rightarrow> u8 list" where
  "wire_word w = [msb w, lsb w, crc8 (msb w) (lsb w)]"

text \<open>The frame of a write transaction: the command, then each payload word.\<close>

definition frame :: "u16 \<Rightarrow> u16 list \<Rightarrow> u8 list" where
  "frame cmd ws = [msb cmd, lsb cmd] @ concat (map wire_word ws)"

text \<open>Bit \<open>k\<close> of a byte group, counted from bit 0 of the first byte, inverted.\<close>

definition flip_wire_bit :: "nat \<Rightarrow> u8 list \<Rightarrow> u8 list" where
  "flip_wire_bit k p = p[k div 8 := (p ! (k div 8)) XOR push_bit (k mod 8) 1]"

text \<open>The bytes a call received: the results of its \<^verbatim>\<open>read()\<close> calls, in order.\<close>

fun received :: "event list \<Rightarrow> u8 list" where
  "received [] = []"
| "received (Read v # es) = of_int v # received es"
| "received (e # es) = received es"

text \<open>The delays a call made, in order.\<close>

fun delays :: "event list \<Rightarrow> nat list" where
  "delays [] = []"
| "delays (Delay n # es) = n # delays es"
| "delays (e # es) = delays es"

text \<open>
  A scripted board: every transmission ends with status \<open>st\<close>, \<open>n\<close> bytes are always
  available, and the \<open>k\<close>-th \<^verbatim>\<open>read()\<close> returns the \<open>k\<close>-th byte of \<open>bs\<close>, then -1.
\<close>

definition scripted :: "u8 \<Rightarrow> int \<Rightarrow> u8 list \<Rightarrow> arduino" where
  "scripted st n bs =
     \<lparr> endTransmission_status = (\<lambda>tr. st),
       available_count = (\<lambda>tr. n),
       read_value = (\<lambda>tr. let k = length (received tr) in if k < length bs then uint (bs ! k) else - 1),
       boot_ms = 0 \<rparr>"

text \<open>The inverse of one CRC round, used to show that a round loses no information.\<close>

definition crc_unstep :: "u8 \<Rightarrow> u8" where
  "crc_unstep y = (if bit y 0 then drop_bit 1 (y XOR 0x31) OR 0x80 else drop_bit 1 y)"

text \<open>
  A received byte sequence passes when each complete group of three carries the CRC of
  its two data bytes; \<open>valid_prefix\<close> counts the groups before the first that does not.
\<close>

fun words_ok :: "u8 list \<Rightarrow> bool" where
  "words_ok (b0 # b1 # c # rest) = (crc8 b0 b1 = c \<and> words_ok rest)"
| "words_ok p = True"

fun valid_prefix :: "u8 list \<Rightarrow> nat" where
  "valid_prefix (b0 # b1 # c # rest) = (if crc8 b0 b1 = c then Suc (valid_prefix rest) else 0)"
| "valid_prefix p = 0"

text \<open>
  The offset round trip of the specification: the word the setter computes decodes, by
  the getter's conversion, to within one LSB (\<open>175/65535\<close>) of the offset. Where the
  setter's conversion is undefined, any word the board may produce is allowed.
\<close>

definition offset_roundtrip :: "rat \<Rightarrow> bool" where
  "offset_roundtrip degC =
     (\<exists>raw. (offset_raw degC = None \<or> offset_raw degC = Some raw)
        \<and> \<bar>offset_degC raw - degC\<bar> \<le> 175 / 65535)"

text \<open>Example data: a zeroed buffer, the sensor's address, and the datasheet's opcodes.\<close>

definition blank :: "nat \<Rightarrow> u16" where
  "blank i = 0"

definition sensor :: SCD4x_7Semi where
  "sensor = \<lparr> address = 0x62 \<rparr>"

definition datasheet :: opcodes where
  "datasheet =
     \<lparr> READ_MEASUREMENT_RAW_CMD_ID = 0xEC05,
       SET_TEMPERATURE_OFFSET_RAW_CMD_ID = 0x241D,
       GET_TEMPERATURE_OFFSET_RAW_CMD_ID = 0x2318,
       PERFORM_FORCED_RECALIBRATION_CMD_ID = 0x362F,
       GET_SERIAL_NUMBER_CMD_ID = 0x3682,
       PERFORM_SELF_TEST_CMD_ID = 0x3639 \<rparr>"

subsection \<open>Facts about the CRC\<close>

lemma crc_for_unroll: "crc_for 0 c = (crc_step ^^ 8) c"
  by (simp add: crc_for.simps [of 0] crc_for.simps [of 1] crc_for.simps [of 2]
      crc_for.simps [of 3] crc_for.simps [of 4] crc_for.simps [of 5] crc_for.simps [of 6]
      crc_for.simps [of 7] crc_for.simps [of 8] eval_nat_numeral)

lemma high_bit_test: "(c AND 0x80 \<noteq> 0) = bit c 7" for c :: u8
proof -
  have "c AND 0x80 = c AND push_bit 7 1" by simp
  then show ?thesis
    by (simp only: and_exp_eq_0_iff_not_bit push_bit_of_1) simp
qed

lemma crc_step_shift_xor: "crc_step = shift_xor"
  by (rule ext) (simp only: crc_step_def shift_xor_def high_bit_test)

text \<open>
  C1. \<^verbatim>\<open>crc8(b0, b1)\<close> is the Sensirion CRC-8 (polynomial 0x31, initial value 0xFF): from
  the seed 0xFF, each of the two bytes is XORed into the running checksum and followed by
  eight rounds of shift-left, with XOR 0x31 when the high bit was set. It is a total
  function of the two bytes, and \<open>crc8(0xBE, 0xEF) = 0x92\<close>.
\<close>

theorem crc8_sensirion: "crc8 b0 b1 = crc8_spec b0 b1 \<and> crc8 0xBE 0xEF = 0x92"
proof
  show "crc8 b0 b1 = crc8_spec b0 b1"
    by (simp add: crc8_def crc8_spec_def crc_for_unroll crc_step_shift_xor)
  show "crc8 0xBE 0xEF = 0x92"
    by code_simp
qed

subsection \<open>One CRC round is invertible\<close>

lemma all_bytes: "list_all (\<lambda>n. crc_unstep (crc_step (of_nat n)) = (of_nat n :: u8)) [0..<256]"
  by code_simp

lemma crc_unstep_step: "crc_unstep (crc_step x) = x"
proof -
  have "unat x < 256" using unsigned_less [of x, where ?'a = nat] by simp
  then have "unat x \<in> set [0..<256]" by simp
  with all_bytes have "crc_unstep (crc_step (of_nat (unat x))) = (of_nat (unat x) :: u8)"
    unfolding list_all_iff by blast
  then show ?thesis by simp
qed

lemma crc_step_inj: "crc_step a = crc_step b \<Longrightarrow> a = b"
  by (metis crc_unstep_step)

lemma crc_rounds_inj: "(crc_step ^^ n) a = (crc_step ^^ n) b \<Longrightarrow> a = b"
  by (induction n arbitrary: a b) (auto dest: crc_step_inj)

lemma xor_cancel_r: "a XOR c = b XOR c \<Longrightarrow> a = b" for a b c :: u8
proof -
  assume h: "a XOR c = b XOR c"
  have "a = (a XOR c) XOR c" by (simp add: xor.assoc)
  also have "\<dots> = (b XOR c) XOR c" by (simp only: h)
  also have "\<dots> = b" by (simp add: xor.assoc)
  finally show ?thesis .
qed

lemma xor_cancel_l: "c XOR a = c XOR b \<Longrightarrow> a = b" for a b c :: u8
  using xor_cancel_r [of a c b] by (simp add: xor.commute)

lemma crc8_inj0: "crc8 a b1 = crc8 b b1 \<Longrightarrow> a = b"
  unfolding crc8_def Let_def crc_for_unroll
  by (blast dest: crc_rounds_inj xor_cancel_r xor_cancel_l)

lemma crc8_inj1: "crc8 b0 a = crc8 b0 b \<Longrightarrow> a = b"
  unfolding crc8_def Let_def crc_for_unroll
  by (blast dest: crc_rounds_inj xor_cancel_r xor_cancel_l)

subsection \<open>Round trip of a word and single-bit errors\<close>

lemma join_bytes: "push_bit 8 (ucast (msb w) :: u16) OR ucast (lsb w) = w"
  by (rule bit_word_eqI) (auto simp: msb_def lsb_def bit_simps)

lemma flip_mask_nonzero: "(push_bit (k mod 8) 1 :: u8) \<noteq> 0"
proof -
  have "bit (push_bit (k mod 8) 1 :: u8) (k mod 8)"
    by (simp add: bit_simps)
  then show ?thesis by auto
qed

lemma xor_changes: "d \<noteq> 0 \<Longrightarrow> a XOR d \<noteq> a" for a d :: u8
  using xor_cancel_l [of a d 0] by auto

lemma checkCrc_wire: "checkCrc (wire_word w) x = (True, w)"
  by (simp add: wire_word_def join_bytes)

lemma checkCrc_flipped:
  assumes "k < 24"
  shows "checkCrc (flip_wire_bit k (wire_word w)) x = (False, x)"
proof -
  define d :: u8 where "d = push_bit (k mod 8) 1"
  have d: "d \<noteq> 0" unfolding d_def by (rule flip_mask_nonzero)
  from assms have "k div 8 = 0 \<or> k div 8 = 1 \<or> k div 8 = 2" by auto
  then show ?thesis
  proof (elim disjE)
    assume "k div 8 = 0"
    then have "flip_wire_bit k (wire_word w) = [msb w XOR d, lsb w, crc8 (msb w) (lsb w)]"
      by (simp add: flip_wire_bit_def wire_word_def d_def)
    moreover have "crc8 (msb w XOR d) (lsb w) \<noteq> crc8 (msb w) (lsb w)"
      using crc8_inj0 xor_changes [OF d] by blast
    ultimately show ?thesis by simp
  next
    assume "k div 8 = 1"
    then have "flip_wire_bit k (wire_word w) = [msb w, lsb w XOR d, crc8 (msb w) (lsb w)]"
      by (simp add: flip_wire_bit_def wire_word_def d_def)
    moreover have "crc8 (msb w) (lsb w XOR d) \<noteq> crc8 (msb w) (lsb w)"
      using crc8_inj1 xor_changes [OF d] by blast
    ultimately show ?thesis by simp
  next
    assume "k div 8 = 2"
    then have "flip_wire_bit k (wire_word w) = [msb w, lsb w, crc8 (msb w) (lsb w) XOR d]"
      by (simp add: flip_wire_bit_def wire_word_def d_def)
    moreover have "crc8 (msb w) (lsb w) \<noteq> crc8 (msb w) (lsb w) XOR d"
      using xor_changes [OF d, of "crc8 (msb w) (lsb w)"] by auto
    ultimately show ?thesis by simp
  qed
qed

text \<open>
  C2. Round trip and single-bit detection: for every 16-bit word, the group
  [MSB, LSB, crc8(MSB, LSB)] is accepted by \<^verbatim>\<open>checkCrc\<close>, which returns the word; and
  inverting any one of the 24 bits of the group makes \<^verbatim>\<open>checkCrc\<close> fail (the output
  word is then left as it was).
\<close>

theorem crc_roundtrip_single_bit:
  "checkCrc (wire_word w) x = (True, w) \<and>
   (\<forall>k < 24. checkCrc (flip_wire_bit k (wire_word w)) x = (False, x))"
  using checkCrc_wire checkCrc_flipped by blast

theorem crc_roundtrip_single_bit_witness:
  "checkCrc (wire_word 0xBEEF) 0 = (True, 0xBEEF) \<and>
   (5::nat) < 24 \<and> checkCrc (flip_wire_bit 5 (wire_word 0xBEEF)) 0 = (False, 0)"
  using crc_roundtrip_single_bit [of "0xBEEF" 0] by simp

subsection \<open>What a transaction puts on the bus\<close>

lemma lsb_mask: "(ucast (w AND 0xFF) :: u8) = lsb w" for w :: u16
proof -
  have m: "(0xFF :: u16) = mask 8" by (simp add: mask_eq_exp_minus_1)
  show ?thesis unfolding lsb_def m
    by (rule bit_word_eqI) (simp add: bit_ucast_iff bit_and_iff bit_mask_iff)
qed

lemma tx_words_trace: "tx_words ws tr = tr @ map Write (concat (map wire_word ws))"
  by (induction ws arbitrary: tr)
     (simp_all add: Let_def i2c_write_def wire_word_def msb_def lsb_mask)

lemma txCommand_trace:
  "txCommand E this cmd ws tr =
     (endTransmission_status E (tr @ BeginTransmission (address this) # map Write (frame cmd ws)) = 0,
      tr @ BeginTransmission (address this) # map Write (frame cmd ws)
         @ [EndTransmission (endTransmission_status E (tr @ BeginTransmission (address this) # map Write (frame cmd ws)))])"
  by (simp add: txCommand_def Let_def i2c_beginTransmission_def i2c_write_def i2c_endTransmission_def
      tx_words_trace frame_def msb_def lsb_mask)

text \<open>
  C8. Send framing: for every command and every payload, \<^verbatim>\<open>txCommand\<close> (which
  \<^verbatim>\<open>sendCommand\<close> and \<^verbatim>\<open>writeCommand\<close> call) begins one transmission to the device,
  writes the command's MSB and LSB and then, for each payload word in order, its MSB, its
  LSB and the CRC-8 of the two, and ends the transmission once. It returns true exactly
  when the end of the transmission reports status 0; there is no second attempt.
\<close>

theorem txCommand_framing:
  "txCommand E this cmd ws tr =
     (let sent = tr @ [BeginTransmission (address this)] @ map Write (frame cmd ws);
          st = endTransmission_status E sent
      in (st = 0, sent @ [EndTransmission st]))
   \<and> sendCommand E this cmd tr = txCommand E this cmd [] tr
   \<and> writeCommand E this cmd ws tr = txCommand E this cmd ws tr"
  by (simp add: txCommand_trace sendCommand_def writeCommand_def Let_def)

lemma received_append: "received (xs @ ys) = received xs @ received ys"
  by (induction xs rule: received.induct) auto

lemma delays_append: "delays (xs @ ys) = delays xs @ delays ys"
  by (induction xs rule: delays.induct) auto

lemma elapsed_append: "elapsed (xs @ ys) = elapsed xs + elapsed ys"
  by (induction xs rule: elapsed.induct) auto

lemma received_writes: "received (map Write bs) = []"
  by (induction bs) auto

lemma delays_writes: "delays (map Write bs) = []"
  by (induction bs) auto

lemma elapsed_writes: "elapsed (map Write bs) = 0"
  by (induction bs) auto

lemma sendCommand_trace:
  assumes "sendCommand E this cmd tr = (ok, tr1)"
  shows "\<exists>es. tr1 = tr @ es \<and> received es = [] \<and> delays es = [] \<and> elapsed es = 0"
proof -
  from assms have "tr1 = tr @ (BeginTransmission (address this) # map Write (frame cmd [])
         @ [EndTransmission (endTransmission_status E (tr @ BeginTransmission (address this) # map Write (frame cmd [])))])"
    by (simp add: sendCommand_def txCommand_trace)
  then show ?thesis
    by (intro exI conjI, assumption)
       (simp_all add: received_append delays_append elapsed_append received_writes delays_writes elapsed_writes)
qed

lemma read_bytes_trace:
  "read_bytes E n tr = (bs, tr') \<Longrightarrow> length bs = n \<and> (\<exists>es. tr' = tr @ es \<and> received es = bs)"
proof (induction n arbitrary: tr bs tr')
  case 0
  then show ?case by simp
next
  case (Suc n)
  obtain v tr1 where r: "i2c_read E tr = (v, tr1)" by (cases "i2c_read E tr")
  obtain cs tr2 where rest: "read_bytes E n tr1 = (cs, tr2)" by (cases "read_bytes E n tr1")
  from Suc.prems r rest have bs: "bs = of_int v # cs" and tr': "tr' = tr2" by simp_all
  from r have tr1: "tr1 = tr @ [Read v]" by (auto simp: i2c_read_def Let_def)
  from Suc.IH [OF rest] obtain es where "length cs = n" "tr2 = tr1 @ es" "received es = cs" by blast
  then show ?case using bs tr' tr1 by (auto simp: received_append)
qed

lemma checkCrc_success: "checkCrc p x = (True, w) \<Longrightarrow> take 3 p = wire_word w"
proof (induction p x rule: checkCrc.induct)
  case (1 b0 b1 c rest word)
  then have c: "crc8 b0 b1 = c" and w: "w = push_bit 8 (ucast b0) OR ucast b1"
    by (auto split: if_splits)
  have "msb w = b0" unfolding w msb_def
    by (rule bit_word_eqI) (auto simp: bit_simps dest: bit_imp_le_length)
  moreover have "lsb w = b1" unfolding w lsb_def
    by (rule bit_word_eqI) (auto simp: bit_simps)
  ultimately show ?case using c by (simp add: wire_word_def)
qed simp_all

lemma nine_bytes: "length bs = 9 \<Longrightarrow> bs = take 3 bs @ take 3 (drop 3 bs) @ take 3 (drop 6 bs)" for bs :: "'a list"
  by (auto simp: eval_nat_numeral length_Suc_conv)

subsection \<open>Rounding to single precision\<close>

lemma pow2_powi: "pow2 e = 2 powi e"
  by (simp add: pow2_def power_int_def inverse_eq_divide power_one_over)

lemma pow2_pos: "0 < pow2 e"
  by (simp add: pow2_powi)

lemma pow2_mono: "a \<le> b \<Longrightarrow> pow2 a \<le> pow2 b"
  by (simp add: pow2_powi power_int_increasing)

lemma pow2_less_cancel: "pow2 a < pow2 b \<Longrightarrow> a < b"
  using pow2_mono [of b a] by (cases "a < b") auto

lemma pow2_double: "2 * pow2 k = pow2 (k + 1)"
  by (simp add: pow2_powi power_int_add)

lemma pow2_0: "pow2 0 = 1" and pow2_1: "pow2 1 = 2"
  by (simp_all add: pow2_def)

lemma binade_up_below: "x < pow2 k \<Longrightarrow> 0 < k \<Longrightarrow> binade_up n x < k"
proof (induction n arbitrary: x k)
  case 0
  then show ?case by simp
next
  case (Suc n)
  show ?case
  proof (cases "2 \<le> x")
    case True
    have "2 * (x / 2) < 2 * pow2 (k - 1)"
      using Suc.prems by (simp add: pow2_double)
    then have half: "x / 2 < pow2 (k - 1)" by simp
    have "pow2 1 < pow2 k" using True Suc.prems by (simp add: pow2_1)
    then have "1 < k" by (rule pow2_less_cancel)
    then have "binade_up n (x / 2) < k - 1" using half by (intro Suc.IH) simp_all
    with True show ?thesis by simp
  next
    case False
    with Suc.prems show ?thesis by simp
  qed
qed

lemma binade_down_nonpos: "binade_down n x \<le> 0"
proof (induction n arbitrary: x)
  case 0
  show ?case by simp
next
  case (Suc n)
  from Suc [of "2 * x"] show ?case by simp
qed

lemma binade_down_below: "x < pow2 k \<Longrightarrow> - int n < k \<Longrightarrow> binade_down n x < k"
proof (induction n arbitrary: x k)
  case 0
  then show ?case by simp
next
  case (Suc n)
  show ?case
  proof (cases "0 < k")
    case True
    with binade_down_nonpos [of "Suc n" x] show ?thesis by linarith
  next
    case False
    then have "pow2 k \<le> pow2 0" by (intro pow2_mono) simp
    with Suc.prems have x: "x < 1" by (simp add: pow2_0)
    have "2 * x < pow2 (k + 1)" using Suc.prems by (simp add: pow2_double [symmetric])
    moreover have "- int n < k + 1" using Suc.prems by simp
    ultimately have "binade_down n (2 * x) < k + 1" by (rule Suc.IH)
    with x show ?thesis by simp
  qed
qed

lemma binade_below: "x < pow2 k \<Longrightarrow> - 126 < k \<Longrightarrow> binade x < k"
proof (cases "1 \<le> x")
  case True
  assume h: "x < pow2 k"
  with True have "pow2 0 < pow2 k" by (simp add: pow2_0)
  then have "0 < k" by (rule pow2_less_cancel)
  with h True show ?thesis by (simp add: binade_def binade_up_below)
next
  case False
  assume "x < pow2 k" "- 126 < k"
  then have "binade_down 126 x < k" by (intro binade_down_below) simp_all
  with False show ?thesis by (simp add: binade_def)
qed

lemma ulp_bound: "\<bar>x\<bar> < pow2 k \<Longrightarrow> - 126 < k \<Longrightarrow> ulp x \<le> pow2 (k - 24)"
  unfolding ulp_def using binade_below [of "\<bar>x\<bar>" k] by (intro pow2_mono) simp

lemma ulp_pos: "0 < ulp x"
  by (simp add: ulp_def pow2_pos)

lemma round_even_err: "\<bar>of_int (round_even q) - q\<bar> \<le> 1 / 2"
proof -
  define r where "r = q - of_int \<lfloor>q\<rfloor>"
  have r: "0 \<le> r" "r < 1" unfolding r_def by linarith+
  have q: "q = of_int \<lfloor>q\<rfloor> + r" by (simp add: r_def)
  consider "r < 1 / 2" | "1 / 2 < r" | "r = 1 / 2" by linarith
  then show ?thesis
  proof cases
    case 1
    then have "round_even q = \<lfloor>q\<rfloor>" by (simp add: round_even_def r_def)
    then have "of_int (round_even q) - q = - r" by (simp add: r_def)
    with 1 r show ?thesis by (simp add: abs_if)
  next
    case 2
    then have "round_even q = \<lfloor>q\<rfloor> + 1" by (simp add: round_even_def r_def)
    then have "of_int (round_even q) - q = 1 - r" by (simp add: r_def)
    with 2 r show ?thesis by (simp add: abs_if)
  next
    case 3
    then have "round_even q = \<lfloor>q\<rfloor> \<or> round_even q = \<lfloor>q\<rfloor> + 1"
      by (simp add: round_even_def r_def Let_def)
    then have "of_int (round_even q) - q = - r \<or> of_int (round_even q) - q = 1 - r"
      by (auto simp: r_def)
    with 3 show ?thesis by (auto simp: abs_if)
  qed
qed

lemma round_even_of_int: "round_even (of_int z) = z"
  by (simp add: round_even_def)

lemma round_even_nonneg: "0 \<le> q \<Longrightarrow> 0 \<le> round_even q"
  by (auto simp: round_even_def Let_def)

lemma fl_0: "fl 0 = 0"
  by (simp add: fl_def)

lemma fl_round: "fl x = of_int (round_even (x / ulp x)) * ulp x"
  by (simp add: fl_def round_even_def)

lemma fl_err: "\<bar>fl x - x\<bar> \<le> ulp x / 2"
proof -
  have u: "0 < ulp x" by (rule ulp_pos)
  have "fl x - x = (of_int (round_even (x / ulp x)) - x / ulp x) * ulp x"
    using u by (simp add: fl_round algebra_simps)
  then have "\<bar>fl x - x\<bar> = \<bar>of_int (round_even (x / ulp x)) - x / ulp x\<bar> * ulp x"
    using u by (simp add: abs_mult)
  also have "\<dots> \<le> (1 / 2) * ulp x"
    using round_even_err [of "x / ulp x"] u by (intro mult_right_mono) simp_all
  finally show ?thesis by simp
qed

lemma fl_nonneg: "0 \<le> x \<Longrightarrow> 0 \<le> fl x"
  using round_even_nonneg [of "x / ulp x"] ulp_pos [of x] by (simp add: fl_round)

lemma fl_err_bound: "\<bar>x\<bar> < pow2 k \<Longrightarrow> - 126 < k \<Longrightarrow> \<bar>fl x - x\<bar> \<le> pow2 (k - 24) / 2"
  using fl_err [of x] ulp_bound [of x k] by simp

lemma fl_int_exact:
  assumes "\<bar>n\<bar> < 2 ^ 24"
  shows "fl (of_int n) = of_int n"
proof -
  define e where "e = binade \<bar>of_int n :: rat\<bar>"
  have "\<bar>of_int n :: rat\<bar> < pow2 24"
  proof -
    have "\<bar>of_int n :: rat\<bar> = of_int \<bar>n\<bar>" by simp
    also have "\<dots> < of_int (2 ^ 24)" using assms by (simp only: of_int_less_iff)
    finally show ?thesis by (simp add: pow2_def)
  qed
  then have e: "e < 24" unfolding e_def by (rule binade_below) simp
  define m where "m = nat (23 - e)"
  have u: "ulp (of_int n) = 1 / 2 ^ m"
    using e by (simp add: ulp_def e_def [symmetric] pow2_def m_def)
  have "of_int n / ulp (of_int n) = (of_int (n * 2 ^ m) :: rat)"
    by (simp add: u)
  then have "round_even (of_int n / ulp (of_int n)) = n * 2 ^ m"
    by (simp only: round_even_of_int)
  then show ?thesis
    by (simp add: fl_round) (simp add: u)
qed

subsection \<open>The unit conversions\<close>

lemma uint16_range: "0 \<le> uint w \<and> uint w \<le> 65535" for w :: u16
  using uint_bounded [of w] by simp

lemma scaled_exact:
  fixes w :: u16
  assumes "0 \<le> c" "c \<le> 255"
  shows "fmul (of_int c) (u16_to_float w) = of_int (c * uint w)"
proof -
  have "c * uint w \<le> 255 * 65535"
    using assms uint16_range [of w] by (intro mult_mono) simp_all
  moreover have "0 \<le> c * uint w" using assms by simp
  ultimately have "\<bar>c * uint w\<bar> < 2 ^ 24" by simp
  then have "fl (of_int (c * uint w)) = of_int (c * uint w)" by (rule fl_int_exact)
  then show ?thesis by (simp add: fmul_def u16_to_float_def)
qed

lemma quotient_range:
  fixes w :: u16
  assumes "0 \<le> c"
  shows "0 \<le> (of_int (c * uint w) :: rat) / 65535 \<and> (of_int (c * uint w) :: rat) / 65535 \<le> of_int c"
proof -
  have "c * uint w \<le> c * 65535"
    using assms uint16_range [of w] by (intro mult_left_mono) simp_all
  then have "(of_int (c * uint w) :: rat) \<le> of_int (c * 65535)" by (simp only: of_int_le_iff)
  moreover have "0 \<le> c * uint w" using assms by simp
  then have "0 \<le> (of_int (c * uint w) :: rat)" by (simp only: of_int_0_le_iff)
  ultimately show ?thesis by simp
qed

lemma rh_tolerance: "\<bar>fdiv (fmul 100 (u16_to_float w)) 65535 - 100 * of_int (uint w) / 65535\<bar> \<le> 1 / 262144"
proof -
  define q :: rat where "q = of_int (100 * uint w) / 65535"
  have r: "0 \<le> q" "q \<le> 100" unfolding q_def using quotient_range [of 100 w] by simp_all
  have "fmul 100 (u16_to_float w) = of_int (100 * uint w)"
    using scaled_exact [of 100 w] by simp
  then have "fdiv (fmul 100 (u16_to_float w)) 65535 = fl q" by (simp add: fdiv_def q_def)
  moreover have "\<bar>fl q - q\<bar> \<le> pow2 (7 - 24) / 2"
    using r by (intro fl_err_bound) (simp_all add: pow2_def)
  ultimately show ?thesis by (simp add: pow2_def q_def)
qed

lemma temp_tolerance: "\<bar>fadd (- 45) (fdiv (fmul 175 (u16_to_float w)) 65535) - (- 45 + 175 * of_int (uint w) / 65535)\<bar> \<le> 1 / 65536"
proof -
  define q :: rat where "q = of_int (175 * uint w) / 65535"
  have r: "0 \<le> q" "q \<le> 175" unfolding q_def using quotient_range [of 175 w] by simp_all
  have "fmul 175 (u16_to_float w) = of_int (175 * uint w)"
    using scaled_exact [of 175 w] by simp
  then have t: "fadd (- 45) (fdiv (fmul 175 (u16_to_float w)) 65535) = fl (- 45 + fl q)" by (simp add: fdiv_def fadd_def q_def)
  have d: "\<bar>fl q - q\<bar> \<le> 1 / 131072"
  proof -
    have "\<bar>fl q - q\<bar> \<le> pow2 (8 - 24) / 2"
      using r by (intro fl_err_bound) (simp_all add: pow2_def)
    then show ?thesis by (simp add: pow2_def)
  qed
  have "\<bar>- 45 + fl q\<bar> < pow2 8"
    using d r by (simp add: pow2_def abs_if split: if_splits)
  then have "\<bar>fl (- 45 + fl q) - (- 45 + fl q)\<bar> \<le> pow2 (8 - 24) / 2"
    by (rule fl_err_bound) simp
  then have s: "\<bar>fl (- 45 + fl q) - (- 45 + fl q)\<bar> \<le> 1 / 131072"
    by (simp add: pow2_def)
  have "\<bar>fadd (- 45) (fdiv (fmul 175 (u16_to_float w)) 65535) - (- 45 + q)\<bar> \<le> \<bar>fl (- 45 + fl q) - (- 45 + fl q)\<bar> + \<bar>fl q - q\<bar>"
    unfolding t by linarith
  with d s have "\<bar>fadd (- 45) (fdiv (fmul 175 (u16_to_float w)) 65535) - (- 45 + q)\<bar> \<le> 1 / 65536" by linarith
  then show ?thesis by (simp add: q_def)
qed


lemma offset_degC_nonneg: "0 \<le> offset_degC raw"
proof -
  have "0 \<le> 175 * uint raw" using uint16_range [of raw] by simp
  then have "(0::rat) \<le> of_int (175 * uint raw)" by (simp only: of_int_0_le_iff)
  then have "0 \<le> fmul 175 (u16_to_float raw)"
    using scaled_exact [of 175 raw] by simp
  then show ?thesis by (simp add: offset_degC_def fdiv_def fl_nonneg)
qed

lemma temp_at_0: "fadd (- 45) (fdiv (fmul 175 (u16_to_float 0)) 65535) = - 45"
proof -
  have a: "fmul 175 (u16_to_float 0) = 0" by code_simp
  have b: "fdiv 0 65535 = 0" by code_simp
  have c: "fadd (- 45) 0 = - 45" by code_simp
  show ?thesis by (simp only: a b c)
qed

lemma temp_at_65535: "fadd (- 45) (fdiv (fmul 175 (u16_to_float 65535)) 65535) = 130"
proof -
  have a: "fmul 175 (u16_to_float 65535) = 11468625" by code_simp
  have b: "fdiv 11468625 65535 = 175" by code_simp
  have c: "fadd (- 45) 175 = 130" by code_simp
  show ?thesis by (simp only: a b c)
qed

lemma temp_at_32767: "fadd (- 45) (fdiv (fmul 175 (u16_to_float 32767)) 65535) = 5570385 / 131072"
proof -
  have a: "fmul 175 (u16_to_float 32767) = 5734225" by code_simp
  have b: "fdiv 5734225 65535 = 11468625 / 131072" by code_simp
  have c: "fadd (- 45) (11468625 / 131072) = 5570385 / 131072" by code_simp
  show ?thesis by (simp only: a b c)
qed

lemma rh_at_0: "fdiv (fmul 100 (u16_to_float 0)) 65535 = 0"
proof -
  have a: "fmul 100 (u16_to_float 0) = 0" by code_simp
  have b: "fdiv 0 65535 = 0" by code_simp
  show ?thesis by (simp only: a b)
qed

lemma rh_at_65535: "fdiv (fmul 100 (u16_to_float 65535)) 65535 = 100"
proof -
  have a: "fmul 100 (u16_to_float 65535) = 6553500" by code_simp
  have b: "fdiv 6553500 65535 = 100" by code_simp
  show ?thesis by (simp only: a b)
qed

lemma offset_raw_0: "offset_raw 0 = Some 0"
proof -
  have a: "fdiv 0 175 = 0" by code_simp
  have b: "fmul 0 65535 = 0" by code_simp
  have c: "float_to_u16 0 = Some 0" by code_simp
  show ?thesis by (simp only: offset_raw_def a b c)
qed

lemma offset_raw_1_5: "offset_raw (3 / 2) = Some 561"
proof -
  have a: "fdiv (3 / 2) 175 = 9203501 / 1073741824" by code_simp
  have b: "fmul (9203501 / 1073741824) 65535 = 9203361 / 16384" by code_simp
  have c: "float_to_u16 (9203361 / 16384) = Some 561" by code_simp
  show ?thesis by (simp only: offset_raw_def a b c)
qed

lemma offset_raw_20: "offset_raw 20 = Some 7489"
proof -
  have a: "fdiv 20 175 = 15339169 / 134217728" by code_simp
  have b: "fmul (15339169 / 134217728) 65535 = 15338935 / 2048" by code_simp
  have c: "float_to_u16 (15338935 / 2048) = Some 7489" by code_simp
  show ?thesis by (simp only: offset_raw_def a b c)
qed

lemma offset_raw_minus_10: "offset_raw (- 10) = None"
proof -
  have a: "fdiv (- 10) 175 = - (15339169 / 268435456)" by code_simp
  have b: "fmul (- (15339169 / 268435456)) 65535 = - (15338935 / 4096)" by code_simp
  have c: "float_to_u16 (- (15338935 / 4096)) = None" by code_simp
  show ?thesis by (simp only: offset_raw_def a b c)
qed

lemma offset_degC_0: "offset_degC 0 = 0"
proof -
  have a: "fmul 175 (u16_to_float 0) = 0" by code_simp
  have b: "fdiv 0 65535 = 0" by code_simp
  show ?thesis by (simp only: offset_degC_def a b)
qed

lemma offset_degC_561: "offset_degC 561 = 196353 / 131072"
proof -
  have a: "fmul 175 (u16_to_float 561) = 98175" by code_simp
  have b: "fdiv 98175 65535 = 196353 / 131072" by code_simp
  show ?thesis by (simp only: offset_degC_def a b)
qed

lemma offset_degC_7489: "offset_degC 7489 = 1310595 / 65536"
proof -
  have a: "fmul 175 (u16_to_float 7489) = 1310575" by code_simp
  have b: "fdiv 1310575 65535 = 1310595 / 65536" by code_simp
  show ?thesis by (simp only: offset_degC_def a b)
qed

end
